theory Spec2Isabelle
  imports Main "HOL-Library.Word"
begin

unbundle bit_operations_syntax

section \<open>The FP5529 voice-coil actuator driver (is-actuator-fp5529.c)\<close>

subsection \<open>Machine types and constants\<close>

type_synonym u8 = "8 word"
type_synonym u16 = "16 word"
type_synonym u32 = "32 word"

text \<open>The register map, as the \<^verbatim>\<open>#define\<close>s at the top of the file give it.\<close>

definition REG_CONTROL :: u8 where "REG_CONTROL = 0x02"
definition REG_VCM_MSB :: u8 where "REG_VCM_MSB = 0x03"
definition REG_VCM_LSB :: u8 where "REG_VCM_LSB = 0x04"
definition REG_STATUS :: u8 where "REG_STATUS = 0x05"
definition REG_ACC_MODE :: u8 where "REG_ACC_MODE = 0x06"
definition REG_ACC_TIME :: u8 where "REG_ACC_TIME = 0x07"
definition REG_PRESET :: u8 where "REG_PRESET = 0x0A"
definition REG_LAD_EN :: u8 where "REG_LAD_EN = 0x0B"

definition DEF_FP5529_FIRST_POSITION :: u32 where "DEF_FP5529_FIRST_POSITION = 100"
definition DEF_FP5529_SECOND_POSITION :: u32 where "DEF_FP5529_SECOND_POSITION = 180"
definition DEF_FP5529_FIRST_DELAY :: u32 where "DEF_FP5529_FIRST_DELAY = 20"
definition DEF_FP5529_SECOND_DELAY :: u32 where "DEF_FP5529_SECOND_DELAY = 10"

text \<open>
  Modelled from the spec: the header \<^verbatim>\<open>is-actuator-fp5529.h\<close> with
  \<^verbatim>\<open>FP5529_POS_MAX_SIZE\<close> and \<^verbatim>\<open>PWR_ON_DELAY\<close> is not among the sources.
  The spec gives the capability constant of a 10-bit VCM as 1023 (the position registers
  hold Pos[9:8] and Pos[7:0]) and the power-on settle delay as 5 ms; the delay is handed
  to \<^verbatim>\<open>usleep_range\<close>, which counts microseconds.
\<close>

definition FP5529_POS_MAX_SIZE :: u32 where "FP5529_POS_MAX_SIZE = 1023"
definition PWR_ON_DELAY :: nat where "PWR_ON_DELAY = 5000"

text \<open>
  The two errno values the driver returns (negated). They come from the kernel's
  \<^verbatim>\<open>errno-base.h\<close>; the statements below only use that both are positive.
\<close>

definition ENODEV :: int where "ENODEV = 19"
definition EINVAL :: int where "EINVAL = 22"

subsection \<open>The bus, the sleeps and the actuator\<close>

text \<open>
  Everything the driver does to the outside world is a call through
  \<^verbatim>\<open>actuator->ixc_ops\<close> or a sleep. Each such call is appended to a transcript, in
  the order the driver makes it.
\<close>

datatype event =
    Write8 u8 u8
  | Write16 u8 u8 u8
  | Read8 u8
  | Msleep u32
  | Usleep_range nat nat

text \<open>
  The three function pointers of \<^verbatim>\<open>ixc_ops\<close> that the driver uses. The bus is an
  external collaborator: what a transfer returns is a function of the transcript so far
  (the first argument) and of the call's own arguments. A return code below zero is a
  failed transfer. \<^verbatim>\<open>addr8_read8\<close> also gives the byte left in its out-parameter.
\<close>

record ixc_ops =
  addr8_write8 :: "event list \<Rightarrow> u8 \<Rightarrow> u8 \<Rightarrow> int"
  addr8_read8 :: "event list \<Rightarrow> u8 \<Rightarrow> int \<times> u8"
  addr_data_write16 :: "event list \<Rightarrow> u8 \<Rightarrow> u8 \<Rightarrow> u8 \<Rightarrow> int"

text \<open>\<^verbatim>\<open>struct i2c_client\<close>: the driver only asks whether \<^verbatim>\<open>client->adapter\<close> is set.\<close>

record i2c_client =
  adapter :: bool

text \<open>
  \<^verbatim>\<open>struct is_actuator\<close>, reduced to the fields the driver reads or writes:
  \<^verbatim>\<open>client\<close> (\<open>None\<close> is the NULL pointer) and \<^verbatim>\<open>position\<close>. The field
  \<open>trace\<close> is the transcript of bus calls and sleeps made so far.
\<close>

record is_actuator =
  client :: "i2c_client option"
  position :: u32
  trace :: "event list"

definition emit :: "event \<Rightarrow> is_actuator \<Rightarrow> is_actuator" where
  "emit e w = w\<lparr>trace := trace w @ [e]\<rparr>"

definition msleep :: "u32 \<Rightarrow> is_actuator \<Rightarrow> is_actuator" where
  "msleep ms w = emit (Msleep ms) w"

definition usleep_range :: "nat \<Rightarrow> nat \<Rightarrow> is_actuator \<Rightarrow> is_actuator" where
  "usleep_range lo hi w = emit (Usleep_range lo hi) w"

definition ixc_write8 :: "ixc_ops \<Rightarrow> u8 \<Rightarrow> u8 \<Rightarrow> is_actuator \<Rightarrow> int \<times> is_actuator" where
  "ixc_write8 ops a v w = (addr8_write8 ops (trace w) a v, emit (Write8 a v) w)"

definition ixc_write16 :: "ixc_ops \<Rightarrow> u8 \<Rightarrow> u8 \<Rightarrow> u8 \<Rightarrow> is_actuator \<Rightarrow> int \<times> is_actuator" where
  "ixc_write16 ops a hi lo w = (addr_data_write16 ops (trace w) a hi lo, emit (Write16 a hi lo) w)"

definition ixc_read8 :: "ixc_ops \<Rightarrow> u8 \<Rightarrow> is_actuator \<Rightarrow> (int \<times> u8) \<times> is_actuator" where
  "ixc_read8 ops a w = (addr8_read8 ops (trace w) a, emit (Read8 a) w)"

subsection \<open>sensor\_fp5529\_init\<close>

text \<open>
  \<^verbatim>\<open>struct is_caldata_list_fp5529\<close>: the three fields the driver copies into its
  \<^verbatim>\<open>u32\<close> locals \<^verbatim>\<open>control_mode\<close>, \<^verbatim>\<open>pre_scale\<close> and \<^verbatim>\<open>sac_time\<close>.
\<close>

record is_caldata_list_fp5529 =
  control_mode :: u32
  prescale :: u32
  acctime :: u32

text \<open>
  \<open>cal_data = None\<close> is the NULL pointer. Each \<^verbatim>\<open>if (ret < 0) goto p_err;\<close> is
  the \<open>if ret < 0 then (ret, w)\<close> that follows the write; \<^verbatim>\<open>i2c_data[1]\<close> is a
  \<^verbatim>\<open>u8\<close>, so what is stored in it is cut to eight bits.
\<close>

definition sensor_fp5529_init ::
  "ixc_ops \<Rightarrow> is_caldata_list_fp5529 option \<Rightarrow> is_actuator \<Rightarrow> int \<times> is_actuator" where
  "sensor_fp5529_init ops cal_data w0 =
     (case cal_data of
        None \<Rightarrow>
          (let (ret, w1) = ixc_write8 ops REG_CONTROL 0x01 w0 in
           if ret < 0 then (ret, w1) else
           let (ret, w2) = ixc_write8 ops REG_CONTROL 0x00 w1 in
           if ret < 0 then (ret, w2) else
           let w3 = usleep_range PWR_ON_DELAY PWR_ON_DELAY w2;
               (ret, w4) = ixc_write8 ops REG_CONTROL (push_bit 1 0x01) w3 in
           if ret < 0 then (ret, w4) else
           let pre_scale = (0x01 :: u32);
               (ret, w5) = ixc_write8 ops REG_ACC_MODE (ucast pre_scale) w4 in
           if ret < 0 then (ret, w5) else
           let (ret, w6) = ixc_write8 ops REG_ACC_TIME 0x36 w5 in
           (ret, w6))
      | Some cal \<Rightarrow>
          (let (ret, w1) = ixc_write8 ops REG_CONTROL 0x01 w0 in
           if ret < 0 then (ret, w1) else
           let (ret, w2) = ixc_write8 ops REG_CONTROL 0x00 w1 in
           if ret < 0 then (ret, w2) else
           let w3 = usleep_range PWR_ON_DELAY PWR_ON_DELAY w2;
               (ret, w4) = ixc_write8 ops REG_CONTROL (push_bit 1 0x01) w3 in
           if ret < 0 then (ret, w4) else
           let control_mode = control_mode cal;
               pre_scale = prescale cal;
               (ret, w5) = ixc_write8 ops REG_ACC_MODE
                 (ucast (push_bit 5 (control_mode AND 0xff) OR (pre_scale AND 0xff))) w4 in
           if ret < 0 then (ret, w5) else
           let sac_time = acctime cal;
               (ret, w6) = ixc_write8 ops REG_ACC_TIME (ucast sac_time) w5 in
           (ret, w6)))"

subsection \<open>sensor\_fp5529\_write\_position\<close>

definition sensor_fp5529_write_position ::
  "ixc_ops \<Rightarrow> i2c_client \<Rightarrow> u32 \<Rightarrow> is_actuator \<Rightarrow> int \<times> is_actuator" where
  "sensor_fp5529_write_position ops cl val w =
     (if \<not> adapter cl then (- ENODEV, w)
      else if val > FP5529_POS_MAX_SIZE then (- EINVAL, w)
      else
        let val_high = (ucast (drop_bit 8 (val AND 0x300)) :: u8);
            val_low = (ucast (val AND 0x00FF) :: u8)
        in ixc_write16 ops REG_VCM_MSB val_high val_low w)"

subsection \<open>sensor\_fp5529\_actuator\_set\_position\<close>

text \<open>
  \<^verbatim>\<open>struct is_sysfs_actuator\<close>, the debug knobs behind
  \<^verbatim>\<open>is_get_sysfs_actuator()\<close>, passed in explicitly. Its \<^verbatim>\<open>int\<close> fields are
  integers here; where the driver hands one to a \<^verbatim>\<open>u32\<close> parameter the conversion
  \<open>word_of_int\<close> is written out. The two arrays are lists of the arrays' length.
\<close>

record is_sysfs_actuator =
  init_step :: int
  init_positions :: "int list"
  init_delays :: "int list"
  enable_fixed :: bool
  fixed_position :: int

text \<open>The argument \<open>info\<close> is the value \<^verbatim>\<open>*info\<close> the caller passes.\<close>

definition sensor_fp5529_actuator_set_position ::
  "ixc_ops \<Rightarrow> is_sysfs_actuator \<Rightarrow> u32 \<Rightarrow> is_actuator \<Rightarrow> int \<times> is_actuator" where
  "sensor_fp5529_actuator_set_position ops sysfs_actuator info w =
     (case client w of
        None \<Rightarrow> (- EINVAL, w)
      | Some cl \<Rightarrow>
          if info > FP5529_POS_MAX_SIZE then (- EINVAL, w)
          else
            let pos = (if enable_fixed sysfs_actuator
                       then word_of_int (fixed_position sysfs_actuator) else info);
                (ret, w') = sensor_fp5529_write_position ops cl pos w
            in if ret < 0 then (ret, w') else (ret, w'\<lparr>position := pos\<rparr>))"

text \<open>The two bytes \<^verbatim>\<open>sensor_fp5529_write_position\<close> packs a position into.\<close>

definition pos_high :: "u32 \<Rightarrow> u8" where
  "pos_high val = ucast (drop_bit 8 (val AND 0x300))"

definition pos_low :: "u32 \<Rightarrow> u8" where
  "pos_low val = ucast (val AND 0x00FF)"

subsection \<open>sensor\_fp5529\_valid\_check and sensor\_fp5529\_init\_position\<close>

text \<open>
  Reading element \<open>i\<close> of a C array. Inside the array it is the element; outside, the
  read is undefined in C and the model has no value for it (\<open>None\<close>).
\<close>

definition array_read :: "int list \<Rightarrow> int \<Rightarrow> int option" where
  "array_read xs i = (if 0 \<le> i \<and> i < int (length xs) then Some (xs ! nat i) else None)"

text \<open>
  The \<^verbatim>\<open>for\<close> loop of \<^verbatim>\<open>sensor_fp5529_valid_check\<close>, entered at index \<open>i\<close>.
  \<open>None\<close> stands for a run that reads outside an array.
\<close>

function valid_check_loop :: "is_sysfs_actuator \<Rightarrow> int \<Rightarrow> int option" where
  "valid_check_loop sysfs_actuator i =
     (if i < init_step sysfs_actuator then
        (case array_read (init_positions sysfs_actuator) i of
           None \<Rightarrow> None
         | Some p \<Rightarrow>
             if p < 0 then Some 0
             else (case array_read (init_delays sysfs_actuator) i of
                     None \<Rightarrow> None
                   | Some d \<Rightarrow>
                       if d < 0 then Some 0
                       else valid_check_loop sysfs_actuator (i + 1)))
      else Some (init_step sysfs_actuator))"
  by pat_completeness auto
termination
  by (relation "measure (\<lambda>(s, i). nat (init_step s - i))") auto

declare valid_check_loop.simps [simp del]

definition sensor_fp5529_valid_check :: "is_sysfs_actuator \<Rightarrow> int option" where
  "sensor_fp5529_valid_check sysfs_actuator =
     (if init_step sysfs_actuator > 0 then valid_check_loop sysfs_actuator 0 else Some 0)"

text \<open>
  The \<^verbatim>\<open>for\<close> loop of \<^verbatim>\<open>sensor_fp5529_init_position\<close>, entered at index
  \<open>i\<close> with the current \<^verbatim>\<open>ret\<close>, together with what follows it. A failed write
  leaves through \<^verbatim>\<open>goto p_err\<close> and returns its code. When the loop is done
  (\<open>i = step\<close>, the local \<^verbatim>\<open>init_step\<close>) the statement after it stores \<^verbatim>\<open>init_positions[i]\<close> as the
  position; \<^verbatim>\<open>sensor_fp5529_print_log\<close> only prints.
\<close>

function init_position_loop ::
  "ixc_ops \<Rightarrow> i2c_client \<Rightarrow> is_sysfs_actuator \<Rightarrow> int \<Rightarrow> int \<Rightarrow> int \<Rightarrow> is_actuator
     \<Rightarrow> (int \<times> is_actuator) option" where
  "init_position_loop ops cl sysfs_actuator step ret i w =
     (if i < step then
        (case array_read (init_positions sysfs_actuator) i of
           None \<Rightarrow> None
         | Some p \<Rightarrow>
             let (ret, w1) = sensor_fp5529_write_position ops cl (word_of_int p) w in
             if ret < 0 then Some (ret, w1)
             else (case array_read (init_delays sysfs_actuator) i of
                     None \<Rightarrow> None
                   | Some d \<Rightarrow>
                       init_position_loop ops cl sysfs_actuator step ret (i + 1)
                         (msleep (word_of_int d) w1)))
      else
        (case array_read (init_positions sysfs_actuator) i of
           None \<Rightarrow> None
         | Some p \<Rightarrow> Some (ret, w\<lparr>position := word_of_int p\<rparr>)))"
  by pat_completeness auto
termination
  by (relation "measure (\<lambda>(ops, cl, s, step, ret, i, w). nat (step - i))") auto

declare init_position_loop.simps [simp del]

definition sensor_fp5529_init_position ::
  "ixc_ops \<Rightarrow> i2c_client \<Rightarrow> is_sysfs_actuator \<Rightarrow> is_actuator \<Rightarrow> (int \<times> is_actuator) option" where
  "sensor_fp5529_init_position ops cl sysfs_actuator w =
     (case sensor_fp5529_valid_check sysfs_actuator of
        None \<Rightarrow> None
      | Some step \<Rightarrow>
          if step > 0 then init_position_loop ops cl sysfs_actuator step 0 0 w
          else
            let (ret, w1) = sensor_fp5529_write_position ops cl DEF_FP5529_FIRST_POSITION w in
            if ret < 0 then Some (ret, w1) else
            let w2 = msleep DEF_FP5529_FIRST_DELAY w1;
                (ret, w3) = sensor_fp5529_write_position ops cl DEF_FP5529_SECOND_POSITION w2 in
            if ret < 0 then Some (ret, w3) else
            let w4 = msleep DEF_FP5529_SECOND_DELAY w3
            in Some (ret, w4\<lparr>position := DEF_FP5529_SECOND_POSITION\<rparr>))"

subsection \<open>sensor\_fp5529\_actuator\_get\_status and the busy-wait\<close>

text \<open>
  The two status values the driver stores in \<^verbatim>\<open>*info\<close>. The local \<^verbatim>\<open>info\<close> of
  the busy-wait is only ever compared with \<^verbatim>\<open>ACTUATOR_STATUS_BUSY\<close>, so a value
  that is neither of the two behaves as \<open>ACTUATOR_STATUS_NO_BUSY\<close> does.
\<close>

datatype is_actuator_status = ACTUATOR_STATUS_NO_BUSY | ACTUATOR_STATUS_BUSY

text \<open>
  \<open>info\<close> is the content of \<^verbatim>\<open>*info\<close> on entry; the result carries its content on
  return. On a NULL client and on a failed read \<^verbatim>\<open>*info\<close> is not written.
\<close>

definition sensor_fp5529_actuator_get_status ::
  "ixc_ops \<Rightarrow> is_actuator_status \<Rightarrow> is_actuator \<Rightarrow> (int \<times> is_actuator_status) \<times> is_actuator" where
  "sensor_fp5529_actuator_get_status ops info w =
     (case client w of
        None \<Rightarrow> ((- EINVAL, info), w)
      | Some cl \<Rightarrow>
          let ((ret, val), w') = ixc_read8 ops REG_STATUS w
          in if ret < 0 then ((ret, info), w')
             else ((ret, if val AND 0x3 = 0 then ACTUATOR_STATUS_NO_BUSY
                         else ACTUATOR_STATUS_BUSY), w'))"

text \<open>
  One pass through the body of the \<^verbatim>\<open>do ... while\<close> loop: the status call (its
  return code is dropped), the 10 ms sleep when \<^verbatim>\<open>info\<close> is busy.
\<close>

definition wait_busy_body ::
  "ixc_ops \<Rightarrow> is_actuator_status \<Rightarrow> is_actuator \<Rightarrow> is_actuator_status \<times> is_actuator" where
  "wait_busy_body ops info w =
     (let ((ret, info'), w1) = sensor_fp5529_actuator_get_status ops info w
      in if info' = ACTUATOR_STATUS_BUSY then (info', msleep 10 w1) else (info', w1))"

text \<open>
  The loop, entered with the current \<^verbatim>\<open>info\<close> and \<^verbatim>\<open>count\<close>; it gives back
  the last \<^verbatim>\<open>info\<close>, the final \<^verbatim>\<open>count\<close> and the actuator.
\<close>

function wait_busy_loop ::
  "ixc_ops \<Rightarrow> is_actuator_status \<Rightarrow> int \<Rightarrow> is_actuator
     \<Rightarrow> (is_actuator_status \<times> int) \<times> is_actuator" where
  "wait_busy_loop ops info count w =
     (let r = wait_busy_body ops info w;
          count' = count + 1
      in if fst r = ACTUATOR_STATUS_BUSY \<and> count' < 15
         then wait_busy_loop ops (fst r) count' (snd r)
         else ((fst r, count'), snd r))"
  by pat_completeness auto
termination
  by (relation "measure (\<lambda>(ops, info, count, w). nat (15 - count))") auto

declare wait_busy_loop.simps [simp del]

text \<open>
  \<^verbatim>\<open>sensor_fp5529_actuator_wait_busy\<close>. The local \<^verbatim>\<open>info\<close> is declared without
  an initialiser: \<open>stack\<close> gives the value it happens to hold on entry (as a function
  of the transcript, so that each call may find another value).
\<close>

definition sensor_fp5529_actuator_wait_busy ::
  "ixc_ops \<Rightarrow> (event list \<Rightarrow> is_actuator_status) \<Rightarrow> is_actuator \<Rightarrow> int \<times> is_actuator" where
  "sensor_fp5529_actuator_wait_busy ops stack w =
     (let info = stack (trace w);
          count = 0;
          w1 = msleep 5 w;
          r = wait_busy_loop ops info count w1
      in (0, snd r))"

subsection \<open>sensor\_fp5529\_actuator\_soft\_landing\<close>

text \<open>
  The function in two parts. First the landing sequence, from the NULL check to the
  busy-wait after the landing-enable write: the position read, the preset write, ring
  mode, the landing profile, landing enable, each followed by a busy-wait.
\<close>

definition soft_landing_sequence ::
  "ixc_ops \<Rightarrow> (event list \<Rightarrow> is_actuator_status) \<Rightarrow> is_actuator \<Rightarrow> int \<times> is_actuator" where
  "soft_landing_sequence ops stack w0 =
     (case client w0 of
        None \<Rightarrow> (- EINVAL, w0)
      | Some cl \<Rightarrow>
          let w1 = snd (sensor_fp5529_actuator_wait_busy ops stack w0);
              ((ret, pos1), w2) = ixc_read8 ops REG_VCM_MSB w1 in
          if ret < 0 then (ret, w2) else
          let ((ret, pos2), w3) = ixc_read8 ops REG_VCM_LSB w2 in
          if ret < 0 then (ret, w3) else
          let pos1 = pos1 AND 0x03;
              pos = (push_bit 8 (ucast pos1 :: u16) OR ucast pos2);
              (ret, w4) = ixc_write8 ops REG_PRESET
                (if pos1 AND 0x02 \<noteq> 0 then 0xff else ucast (drop_bit 1 pos)) w3 in
          if ret < 0 then (ret, w4) else
          let w5 = snd (sensor_fp5529_actuator_wait_busy ops stack w4);
              (ret, w6) = ixc_write8 ops REG_CONTROL 0x02 w5 in
          if ret < 0 then (ret, w6) else
          let w7 = snd (sensor_fp5529_actuator_wait_busy ops stack w6);
              (ret, w8) = ixc_write8 ops REG_ACC_MODE (push_bit 5 0x05 OR 0x01) w7 in
          if ret < 0 then (ret, w8) else
          let w9 = snd (sensor_fp5529_actuator_wait_busy ops stack w8);
              (ret, w10) = ixc_write8 ops REG_LAD_EN 0x01 w9 in
          if ret < 0 then (ret, w10) else
          let w11 = snd (sensor_fp5529_actuator_wait_busy ops stack w10)
          in (ret, w11))"

text \<open>
  Then the check that the lens came to rest: the position is read back and compared with
  zero. \<^verbatim>\<open>HW_SOFTLANDING_FAIL\<close> is defined in a header that is not among the sources;
  its value is a parameter.
\<close>

definition soft_landing_verify :: "ixc_ops \<Rightarrow> int \<Rightarrow> is_actuator \<Rightarrow> int \<times> is_actuator" where
  "soft_landing_verify ops HW_SOFTLANDING_FAIL w0 =
     (let ((ret, pos1), w1) = ixc_read8 ops REG_VCM_MSB w0 in
      if ret < 0 then (ret, w1) else
      let ((ret, pos2), w2) = ixc_read8 ops REG_VCM_LSB w1 in
      if ret < 0 then (ret, w2) else
      let pos1 = pos1 AND 0x03;
          pos = (push_bit 8 (ucast pos1 :: u16) OR ucast pos2) in
      if pos > 0 then (HW_SOFTLANDING_FAIL, w2\<lparr>position := ucast pos\<rparr>)
      else (ret, w2))"

definition sensor_fp5529_actuator_soft_landing ::
  "ixc_ops \<Rightarrow> (event list \<Rightarrow> is_actuator_status) \<Rightarrow> int \<Rightarrow> is_actuator \<Rightarrow> int \<times> is_actuator" where
  "sensor_fp5529_actuator_soft_landing ops stack HW_SOFTLANDING_FAIL w =
     (let (ret, w1) = soft_landing_sequence ops stack w in
      if ret < 0 then (ret, w1) else soft_landing_verify ops HW_SOFTLANDING_FAIL w1)"

text \<open>A bus on which every transfer succeeds and every register reads as zero.\<close>

definition quiet_bus :: ixc_ops where
  "quiet_bus = \<lparr>addr8_write8 = (\<lambda>h a v. 0), addr8_read8 = (\<lambda>h a. (0, 0)),
     addr_data_write16 = (\<lambda>h a hi lo. 0)\<rparr>"

text \<open>A bus that refuses every transfer with \<^verbatim>\<open>-EIO\<close>.\<close>

definition dead_bus :: ixc_ops where
  "dead_bus = \<lparr>addr8_write8 = (\<lambda>h a v. - 5), addr8_read8 = (\<lambda>h a. (- 5, 0)),
     addr_data_write16 = (\<lambda>h a hi lo. - 5)\<rparr>"

definition fixed_at :: "int \<Rightarrow> is_sysfs_actuator" where
  "fixed_at p = \<lparr>init_step = 0, init_positions = [0, 0, 0, 0, 0],
     init_delays = [0, 0, 0, 0, 0], enable_fixed = True, fixed_position = p\<rparr>"

definition no_override :: is_sysfs_actuator where
  "no_override = \<lparr>init_step = 0, init_positions = [0, 0, 0, 0, 0],
     init_delays = [0, 0, 0, 0, 0], enable_fixed = False, fixed_position = 0\<rparr>"

definition two_step_list :: is_sysfs_actuator where
  "two_step_list = \<lparr>init_step = 2, init_positions = [100, 180, 0, 0, 0],
     init_delays = [20, 10, 0, 0, 0], enable_fixed = False, fixed_position = 0\<rparr>"

definition five_step_list :: is_sysfs_actuator where
  "five_step_list = \<lparr>init_step = 5, init_positions = [100, 120, 140, 160, 180],
     init_delays = [20, 10, 10, 10, 10], enable_fixed = False, fixed_position = 0\<rparr>"

definition bad_delay_list :: is_sysfs_actuator where
  "bad_delay_list = \<lparr>init_step = 2, init_positions = [100, 180, 0, 0, 0],
     init_delays = [20, - 1, 0, 0, 0], enable_fixed = False, fixed_position = 0\<rparr>"

text \<open>
  A bus on which the position registers always read \<open>0xFE\<close> (high) and \<open>0x10\<close>
  (low), and the status register reads idle.
\<close>

definition stuck_bus :: ixc_ops where
  "stuck_bus = \<lparr>addr8_write8 = (\<lambda>h a v. 0),
     addr8_read8 = (\<lambda>h a. if a = REG_VCM_MSB then (0, 0xFE)
                          else if a = REG_VCM_LSB then (0, 0x10) else (0, 0)),
     addr_data_write16 = (\<lambda>h a hi lo. 0)\<rparr>"

definition fresh_actuator :: is_actuator where
  "fresh_actuator = \<lparr>client = Some \<lparr>adapter = True\<rparr>, position = 0, trace = []\<rparr>"

text \<open>A bus whose status register always shows the VCM busy bit.\<close>

definition busy_bus :: ixc_ops where
  "busy_bus = \<lparr>addr8_write8 = (\<lambda>h a v. 0), addr8_read8 = (\<lambda>h a. (0, 1)),
     addr_data_write16 = (\<lambda>h a hi lo. 0)\<rparr>"

text \<open>
  A bus whose first status read succeeds and shows the busy bit, and whose every later
  status read fails with \<^verbatim>\<open>-EIO\<close>.
\<close>

definition flaky_bus :: ixc_ops where
  "flaky_bus = \<lparr>addr8_write8 = (\<lambda>h a v. 0),
     addr8_read8 = (\<lambda>h a. if Read8 REG_STATUS \<in> set h then (- 5, 0) else (0, 1)),
     addr_data_write16 = (\<lambda>h a hi lo. 0)\<rparr>"

subsection \<open>Vocabulary of the statements\<close>

text \<open>The number of status-register reads in a stretch of the transcript.\<close>

definition status_polls :: "event list \<Rightarrow> nat" where
  "status_polls es = length (filter (\<lambda>e. e = Read8 REG_STATUS) es)"

text \<open>Every status read succeeds and reports one of the two busy bits set.\<close>

definition always_busy :: "ixc_ops \<Rightarrow> bool" where
  "always_busy ops = (\<forall>h. 0 \<le> fst (addr8_read8 ops h REG_STATUS)
      \<and> snd (addr8_read8 ops h REG_STATUS) AND 0x3 \<noteq> 0)"

text \<open>
  The default initialisation in the order the spec lists it: power-down set, power-down
  clear, the 5 ms settle delay, ring-mode enable (bit 1 of the control register),
  acceleration mode \<open>0x01\<close>, acceleration time \<open>0x36\<close>.
\<close>

definition default_init_sequence :: "event list" where
  "default_init_sequence =
     [Write8 REG_CONTROL 0x01, Write8 REG_CONTROL 0x00, Usleep_range 5000 5000,
      Write8 REG_CONTROL 0x02, Write8 REG_ACC_MODE 0x01, Write8 REG_ACC_TIME 0x36]"

text \<open>
  The shape both branches of the initialisation share, with the bus calls written out:
  \<open>m\<close> and \<open>t\<close> are the bytes for the acceleration-mode and acceleration-time
  registers.
\<close>

definition init_writes :: "ixc_ops \<Rightarrow> u8 \<Rightarrow> u8 \<Rightarrow> is_actuator \<Rightarrow> int \<times> is_actuator" where
  "init_writes ops m t w =
     (let h0 = trace w;
          r1 = addr8_write8 ops h0 REG_CONTROL 0x01;
          h1 = h0 @ [Write8 REG_CONTROL 0x01];
          r2 = addr8_write8 ops h1 REG_CONTROL 0x00;
          h2 = h1 @ [Write8 REG_CONTROL 0x00];
          h3 = h2 @ [Usleep_range 5000 5000];
          r3 = addr8_write8 ops h3 REG_CONTROL 0x02;
          h4 = h3 @ [Write8 REG_CONTROL 0x02];
          r4 = addr8_write8 ops h4 REG_ACC_MODE m;
          h5 = h4 @ [Write8 REG_ACC_MODE m];
          r5 = addr8_write8 ops h5 REG_ACC_TIME t;
          h6 = h5 @ [Write8 REG_ACC_TIME t]
      in if r1 < 0 then (r1, w\<lparr>trace := h1\<rparr>)
         else if r2 < 0 then (r2, w\<lparr>trace := h2\<rparr>)
         else if r3 < 0 then (r3, w\<lparr>trace := h4\<rparr>)
         else if r4 < 0 then (r4, w\<lparr>trace := h5\<rparr>)
         else (r5, w\<lparr>trace := h6\<rparr>))"

text \<open>A bus that refuses the ring-mode write (value 2) and accepts everything else.\<close>

definition ring_fail_bus :: ixc_ops where
  "ring_fail_bus = \<lparr>addr8_write8 = (\<lambda>h a v. if v = 2 then - 5 else 0),
     addr8_read8 = (\<lambda>h a. (0, 0)), addr_data_write16 = (\<lambda>h a hi lo. 0)\<rparr>"

section \<open>Basic facts about the transcript\<close>

lemma trace_emit: "trace (emit e w) = trace w @ [e]"
  by (simp add: emit_def)

lemma client_emit: "client (emit e w) = client w"
  by (simp add: emit_def)

lemma position_emit: "position (emit e w) = position w"
  by (simp add: emit_def)

section \<open>Position writes\<close>

text \<open>
  C3. A target above the maximum position is rejected before the bus is touched:
  \<^verbatim>\<open>sensor_fp5529_write_position\<close> leaves the actuator and the transcript exactly as
  they were (no write, no read, no sleep), whatever the bus would have answered, and on a
  client with an adapter the return code is \<^verbatim>\<open>-EINVAL\<close>, the range error.
\<close>

theorem write_position_out_of_range:
  assumes "val > FP5529_POS_MAX_SIZE"
  shows "snd (sensor_fp5529_write_position ops cl val w) = w
    \<and> (adapter cl \<longrightarrow> fst (sensor_fp5529_write_position ops cl val w) = - EINVAL)"
  using assms by (simp add: sensor_fp5529_write_position_def)

theorem write_position_out_of_range_witness:
  "(1024 :: u32) > FP5529_POS_MAX_SIZE
   \<and> adapter \<lparr>adapter = True\<rparr>
   \<and> sensor_fp5529_write_position quiet_bus \<lparr>adapter = True\<rparr> 1024 fresh_actuator
       = (- 22, fresh_actuator)"
proof -
  have h: "(1024 :: u32) > FP5529_POS_MAX_SIZE" by (simp add: FP5529_POS_MAX_SIZE_def)
  from write_position_out_of_range [OF h, of quiet_bus "\<lparr>adapter = True\<rparr>" fresh_actuator] h
  show ?thesis by (simp add: prod_eq_iff EINVAL_def)
qed

text \<open>
  C10. \<^verbatim>\<open>sensor_fp5529_actuator_set_position\<close> stores the new position only after
  the packed write has returned success. Whenever it returns an error (a missing client,
  a range rejection, a failed bus write) the stored position is what it was; whenever it
  returns success, exactly one packed write to the position registers was made, that
  write returned the success code, and the stored position is the value written.
\<close>

theorem set_position_atomic:
  assumes "sensor_fp5529_actuator_set_position ops sysfs info w = (ret, w')"
  shows "(ret < 0 \<longrightarrow> position w' = position w)
    \<and> (0 \<le> ret \<longrightarrow>
         (let pos = (if enable_fixed sysfs then word_of_int (fixed_position sysfs) else info)
          in trace w' = trace w @ [Write16 REG_VCM_MSB (pos_high pos) (pos_low pos)]
            \<and> addr_data_write16 ops (trace w) REG_VCM_MSB (pos_high pos) (pos_low pos) = ret
            \<and> position w' = pos))"
  using assms
  by (auto simp: sensor_fp5529_actuator_set_position_def sensor_fp5529_write_position_def
      ixc_write16_def emit_def pos_high_def pos_low_def EINVAL_def ENODEV_def Let_def
      split: option.splits if_splits prod.splits)

theorem set_position_atomic_witness:
  "sensor_fp5529_actuator_set_position quiet_bus no_override 300 fresh_actuator
     = (0, fresh_actuator\<lparr>trace := [Write16 REG_VCM_MSB 1 44], position := 300\<rparr>)
   \<and> sensor_fp5529_actuator_set_position dead_bus no_override 300 fresh_actuator
     = (- 5, fresh_actuator\<lparr>trace := [Write16 REG_VCM_MSB 1 44]\<rparr>)
   \<and> position (snd (sensor_fp5529_actuator_set_position dead_bus no_override 300 fresh_actuator))
     = position fresh_actuator"
proof -
  have a: "sensor_fp5529_actuator_set_position quiet_bus no_override 300 fresh_actuator
     = (0, fresh_actuator\<lparr>trace := [Write16 REG_VCM_MSB 1 44], position := 300\<rparr>)"
    by (simp add: sensor_fp5529_actuator_set_position_def sensor_fp5529_write_position_def
        ixc_write16_def emit_def quiet_bus_def no_override_def fresh_actuator_def
        FP5529_POS_MAX_SIZE_def)
  have b: "sensor_fp5529_actuator_set_position dead_bus no_override 300 fresh_actuator
     = (- 5, fresh_actuator\<lparr>trace := [Write16 REG_VCM_MSB 1 44]\<rparr>)"
    by (simp add: sensor_fp5529_actuator_set_position_def sensor_fp5529_write_position_def
        ixc_write16_def emit_def dead_bus_def no_override_def fresh_actuator_def
        FP5529_POS_MAX_SIZE_def)
  from set_position_atomic [OF b]
  have "position (fresh_actuator\<lparr>trace := [Write16 REG_VCM_MSB 1 44]\<rparr>) = position fresh_actuator"
    by simp
  with a b show ?thesis by simp
qed

text \<open>
  C8, as the code has it. With the fixed-position override enabled, the caller's target is
  still range-checked first: a target above the maximum is rejected with
  \<^verbatim>\<open>-EINVAL\<close> and nothing is written, whatever the override is. Only for a target
  within range does the override replace it; the second range check (inside
  \<^verbatim>\<open>sensor_fp5529_write_position\<close>) and the packed write then operate on the
  override, and on success the stored position is the override.
\<close>

theorem set_position_fixed_override:
  assumes "enable_fixed sysfs" and "client w = Some cl" and "adapter cl"
  shows "sensor_fp5529_actuator_set_position ops sysfs info w =
    (let pos = (word_of_int (fixed_position sysfs) :: u32);
         ret = addr_data_write16 ops (trace w) REG_VCM_MSB (pos_high pos) (pos_low pos);
         w' = w\<lparr>trace := trace w @ [Write16 REG_VCM_MSB (pos_high pos) (pos_low pos)]\<rparr>
     in if info > FP5529_POS_MAX_SIZE then (- EINVAL, w)
        else if pos > FP5529_POS_MAX_SIZE then (- EINVAL, w)
        else if ret < 0 then (ret, w')
        else (ret, w'\<lparr>position := pos\<rparr>))"
  using assms
  by (simp add: sensor_fp5529_actuator_set_position_def sensor_fp5529_write_position_def
      ixc_write16_def emit_def pos_high_def pos_low_def Let_def EINVAL_def)

theorem set_position_fixed_override_witness:
  "enable_fixed (fixed_at 100) \<and> client fresh_actuator = Some \<lparr>adapter = True\<rparr>
   \<and> adapter \<lparr>adapter = True\<rparr>
   \<and> sensor_fp5529_actuator_set_position quiet_bus (fixed_at 100) 300 fresh_actuator
     = (0, fresh_actuator\<lparr>trace := [Write16 REG_VCM_MSB 0 100], position := 100\<rparr>)
   \<and> sensor_fp5529_actuator_set_position quiet_bus (fixed_at 100) 2000 fresh_actuator
     = (- 22, fresh_actuator)"
proof -
  have e: "enable_fixed (fixed_at 100)" by (simp add: fixed_at_def)
  have c: "client fresh_actuator = Some \<lparr>adapter = True\<rparr>" by (simp add: fresh_actuator_def)
  have a: "adapter \<lparr>adapter = True\<rparr>" by simp
  have f: "fixed_position (fixed_at 100) = 100" by (simp add: fixed_at_def)
  have t: "trace fresh_actuator = []" by (simp add: fresh_actuator_def)
  show ?thesis
    using e c a set_position_fixed_override [OF e c a, of quiet_bus 300]
      set_position_fixed_override [OF e c a, of quiet_bus 2000]
    by (simp add: f t pos_high_def pos_low_def quiet_bus_def FP5529_POS_MAX_SIZE_def EINVAL_def)
qed

text \<open>
  The spec's wording for C8 (the override replaces the target before any validation)
  does not hold: with the override set to the valid position 100, a caller-supplied
  target of 2000 is rejected and nothing reaches the bus, although a write of 100 on its
  own is accepted.
\<close>

theorem set_position_override_counterexample:
  "sensor_fp5529_actuator_set_position quiet_bus (fixed_at 100) 2000 fresh_actuator
     = (- EINVAL, fresh_actuator)
   \<and> sensor_fp5529_write_position quiet_bus \<lparr>adapter = True\<rparr> 100 fresh_actuator
     = (0, fresh_actuator\<lparr>trace := [Write16 REG_VCM_MSB 0 100]\<rparr>)"
  by (simp add: sensor_fp5529_actuator_set_position_def sensor_fp5529_write_position_def
      ixc_write16_def emit_def quiet_bus_def fixed_at_def fresh_actuator_def
      FP5529_POS_MAX_SIZE_def)

section \<open>The busy-wait\<close>

lemma body_trace:
  "\<exists>evs. trace (snd (wait_busy_body ops info w)) = trace w @ evs \<and> status_polls evs \<le> 1"
  by (auto simp: wait_busy_body_def sensor_fp5529_actuator_get_status_def ixc_read8_def
      msleep_def trace_emit status_polls_def Let_def split: option.splits prod.splits)

lemma loop_trace:
  "count \<le> 14 \<Longrightarrow>
   \<exists>evs. trace (snd (wait_busy_loop ops info count w)) = trace w @ evs
      \<and> status_polls evs \<le> nat (15 - count)
      \<and> snd (fst (wait_busy_loop ops info count w)) \<le> 15"
proof (induction ops info count w rule: wait_busy_loop.induct)
  case (1 ops info count w)
  obtain e1 where e1: "trace (snd (wait_busy_body ops info w)) = trace w @ e1" "status_polls e1 \<le> 1"
    using body_trace by blast
  show ?case
  proof (cases "fst (wait_busy_body ops info w) = ACTUATOR_STATUS_BUSY \<and> count + 1 < 15")
    case True
    then obtain e2 where e2: "trace (snd (wait_busy_loop ops (fst (wait_busy_body ops info w)) (count + 1) (snd (wait_busy_body ops info w))))
        = trace (snd (wait_busy_body ops info w)) @ e2" "status_polls e2 \<le> nat (15 - (count + 1))"
       "snd (fst (wait_busy_loop ops (fst (wait_busy_body ops info w)) (count + 1) (snd (wait_busy_body ops info w)))) \<le> 15"
      using "1.IH" [OF refl refl] by auto
    have "nat (15 - (count + 1)) + 1 = nat (15 - count)"
      using True by arith
    then have "status_polls (e1 @ e2) \<le> nat (15 - count)"
      using e1(2) e2(2) by (simp add: status_polls_def)
    with True e1 e2 show ?thesis
      by (subst (1 2) wait_busy_loop.simps) (auto simp: Let_def)
  next
    case False
    with e1 "1.prems" show ?thesis
      by (subst (1 2) wait_busy_loop.simps) (auto simp: Let_def)
  qed
qed

lemma body_busy:
  assumes "always_busy ops" and "client w = Some cl"
  shows "wait_busy_body ops info w
    = (ACTUATOR_STATUS_BUSY, w\<lparr>trace := trace w @ [Read8 REG_STATUS, Msleep 10]\<rparr>)"
proof -
  obtain r v where rv: "addr8_read8 ops (trace w) REG_STATUS = (r, v)"
    by (cases "addr8_read8 ops (trace w) REG_STATUS")
  from assms(1) have "0 \<le> fst (addr8_read8 ops (trace w) REG_STATUS)"
    and "snd (addr8_read8 ops (trace w) REG_STATUS) AND 0x3 \<noteq> 0"
    by (simp_all add: always_busy_def)
  with rv have "0 \<le> r" and "v AND 0x3 \<noteq> 0" by simp_all
  with rv assms(2) show ?thesis
    by (simp add: wait_busy_body_def sensor_fp5529_actuator_get_status_def ixc_read8_def
        msleep_def emit_def)
qed

lemma loop_busy:
  "always_busy ops \<Longrightarrow> client w = Some cl \<Longrightarrow> 0 \<le> count \<Longrightarrow> count \<le> 14 \<Longrightarrow>
   wait_busy_loop ops info count w
    = ((ACTUATOR_STATUS_BUSY, 15),
       w\<lparr>trace := trace w @ concat (replicate (nat (15 - count)) [Read8 REG_STATUS, Msleep 10])\<rparr>)"
proof (induction ops info count w rule: wait_busy_loop.induct)
  case (1 ops info count w)
  let ?w2 = "w\<lparr>trace := trace w @ [Read8 REG_STATUS, Msleep 10]\<rparr>"
  have body: "wait_busy_body ops info w = (ACTUATOR_STATUS_BUSY, ?w2)"
    using "1.prems"(1,2) by (rule body_busy)
  show ?case
  proof (cases "count + 1 < 15")
    case True
    have n: "nat (15 - count) = Suc (nat (15 - (count + 1)))"
      using True "1.prems"(3) by arith
    have "wait_busy_loop ops ACTUATOR_STATUS_BUSY (count + 1) ?w2
      = ((ACTUATOR_STATUS_BUSY, 15),
         ?w2\<lparr>trace := trace ?w2 @ concat (replicate (nat (15 - (count + 1))) [Read8 REG_STATUS, Msleep 10])\<rparr>)"
      using "1.IH" [OF refl refl, unfolded body] True "1.prems" by simp
    then show ?thesis
      by (subst wait_busy_loop.simps) (simp add: body True n)
  next
    case False
    with "1.prems" have c: "count = 14" by simp
    show ?thesis
      by (subst wait_busy_loop.simps) (simp add: body c)
  qed
qed

lemma wait_busy_ret: "fst (sensor_fp5529_actuator_wait_busy ops stack w) = 0"
  by (simp add: sensor_fp5529_actuator_wait_busy_def Let_def)

lemma wait_busy_idle:
  assumes "client w \<noteq> None"
    and "0 \<le> fst (addr8_read8 ops (trace w @ [Msleep 5]) REG_STATUS)"
    and "snd (addr8_read8 ops (trace w @ [Msleep 5]) REG_STATUS) AND 0x3 = 0"
  shows "sensor_fp5529_actuator_wait_busy ops stack w
    = (0, w\<lparr>trace := trace w @ [Msleep 5, Read8 REG_STATUS]\<rparr>)"
proof -
  obtain r v where rv: "addr8_read8 ops (trace w @ [Msleep 5]) REG_STATUS = (r, v)"
    by (cases "addr8_read8 ops (trace w @ [Msleep 5]) REG_STATUS")
  with assms have "0 \<le> r" and "v AND 0x3 = 0" by simp_all
  with rv assms(1) have "wait_busy_body ops (stack (trace w)) (msleep 5 w)
      = (ACTUATOR_STATUS_NO_BUSY, w\<lparr>trace := trace w @ [Msleep 5, Read8 REG_STATUS]\<rparr>)"
    by (auto simp: wait_busy_body_def sensor_fp5529_actuator_get_status_def ixc_read8_def
        msleep_def emit_def)
  then show ?thesis
    by (simp add: sensor_fp5529_actuator_wait_busy_def wait_busy_loop.simps [of _ _ 0])
qed

text \<open>
  C6, as the code has it. \<^verbatim>\<open>sensor_fp5529_actuator_wait_busy\<close> always returns, after
  at most 15 passes through its loop and at most 15 status reads, whatever the bus answers;
  its return value is the constant 0. When every status read reports busy (and the client
  is set) it makes exactly 15 polls, each followed by the 10 ms sleep, and the last status
  it saw is busy; the value it returns is still 0.
\<close>

theorem wait_busy_bounded:
  "fst (sensor_fp5529_actuator_wait_busy ops stack w) = 0
   \<and> (\<exists>evs. trace (snd (sensor_fp5529_actuator_wait_busy ops stack w)) = trace w @ Msleep 5 # evs
          \<and> status_polls evs \<le> 15)
   \<and> snd (fst (wait_busy_loop ops (stack (trace w)) 0 (msleep 5 w))) \<le> 15
   \<and> (always_busy ops \<and> client w \<noteq> None \<longrightarrow>
        wait_busy_loop ops (stack (trace w)) 0 (msleep 5 w)
          = ((ACTUATOR_STATUS_BUSY, 15),
             w\<lparr>trace := trace w @ Msleep 5 # concat (replicate 15 [Read8 REG_STATUS, Msleep 10])\<rparr>)
        \<and> sensor_fp5529_actuator_wait_busy ops stack w
          = (0, w\<lparr>trace := trace w @ Msleep 5 # concat (replicate 15 [Read8 REG_STATUS, Msleep 10])\<rparr>))"
proof -
  let ?w1 = "msleep 5 w"
  let ?info = "stack (trace w)"
  have ret: "fst (sensor_fp5529_actuator_wait_busy ops stack w) = 0"
    by (rule wait_busy_ret)
  have w': "snd (sensor_fp5529_actuator_wait_busy ops stack w) = snd (wait_busy_loop ops ?info 0 ?w1)"
    by (simp add: sensor_fp5529_actuator_wait_busy_def Let_def)
  obtain evs where evs: "trace (snd (wait_busy_loop ops ?info 0 ?w1)) = trace ?w1 @ evs"
      "status_polls evs \<le> nat (15 - 0)" "snd (fst (wait_busy_loop ops ?info 0 ?w1)) \<le> 15"
    using loop_trace [of 0 ops ?info ?w1] by auto
  have bound: "\<exists>evs. trace (snd (sensor_fp5529_actuator_wait_busy ops stack w)) = trace w @ Msleep 5 # evs
      \<and> status_polls evs \<le> 15"
    using evs(1,2) by (simp add: w' msleep_def trace_emit)
  have busy: "wait_busy_loop ops ?info 0 ?w1
      = ((ACTUATOR_STATUS_BUSY, 15),
         w\<lparr>trace := trace w @ Msleep 5 # concat (replicate 15 [Read8 REG_STATUS, Msleep 10])\<rparr>)"
    if "always_busy ops" and "client w \<noteq> None"
  proof -
    from that(2) obtain cl where "client ?w1 = Some cl"
      by (auto simp: msleep_def client_emit)
    from loop_busy [OF that(1) this, of 0 ?info] show ?thesis
      by (simp add: msleep_def emit_def)
  qed
  have whole: "sensor_fp5529_actuator_wait_busy ops stack w
      = (0, snd (wait_busy_loop ops ?info 0 ?w1))"
    by (simp add: sensor_fp5529_actuator_wait_busy_def Let_def)
  show ?thesis
    using ret bound evs(3) busy by (simp add: whole)
qed

theorem wait_busy_bounded_witness:
  "always_busy busy_bus \<and> client fresh_actuator \<noteq> None
   \<and> sensor_fp5529_actuator_wait_busy busy_bus (\<lambda>h. ACTUATOR_STATUS_NO_BUSY) fresh_actuator
     = (0, fresh_actuator\<lparr>trace := Msleep 5 # concat (replicate 15 [Read8 REG_STATUS, Msleep 10])\<rparr>)"
proof -
  have b: "always_busy busy_bus"
    by (simp add: always_busy_def busy_bus_def)
  have c: "client fresh_actuator \<noteq> None"
    by (simp add: fresh_actuator_def)
  have t: "trace fresh_actuator = []"
    by (simp add: fresh_actuator_def)
  from wait_busy_bounded [of busy_bus "\<lambda>h. ACTUATOR_STATUS_NO_BUSY" fresh_actuator] b c
  show ?thesis by (simp add: t)
qed

text \<open>
  The spec's wording for C6 has the busy-wait return the last observed status. The
  function returns 0 on a bus that is busy to the end (last status seen: busy) and the
  same 0 on a bus that is idle at the first poll (last status seen: not busy).
\<close>

theorem wait_busy_return_counterexample:
  "fst (sensor_fp5529_actuator_wait_busy busy_bus (\<lambda>h. ACTUATOR_STATUS_NO_BUSY) fresh_actuator) = 0
   \<and> fst (fst (wait_busy_loop busy_bus ACTUATOR_STATUS_NO_BUSY 0 (msleep 5 fresh_actuator)))
       = ACTUATOR_STATUS_BUSY
   \<and> fst (sensor_fp5529_actuator_wait_busy quiet_bus (\<lambda>h. ACTUATOR_STATUS_NO_BUSY) fresh_actuator) = 0
   \<and> fst (fst (wait_busy_loop quiet_bus ACTUATOR_STATUS_NO_BUSY 0 (msleep 5 fresh_actuator)))
       = ACTUATOR_STATUS_NO_BUSY"
  by code_simp

text \<open>
  C7, as the code has it. The busy-wait never returns an error: its return value is 0
  whatever happens on the bus. A failed status read is not turned into "not busy": the
  status call hands back the error code and leaves \<^verbatim>\<open>info\<close> as it was, and the loop
  ignores the code. So when the previous pass saw busy, a failed read counts as busy again:
  the loop sleeps its 10 ms and, below the bound of 15, polls once more.
\<close>

theorem wait_busy_failed_read:
  "fst (sensor_fp5529_actuator_wait_busy ops stack w) = 0
   \<and> (client w \<noteq> None \<and> fst (addr8_read8 ops (trace w) REG_STATUS) < 0 \<longrightarrow>
        sensor_fp5529_actuator_get_status ops info w
          = ((fst (addr8_read8 ops (trace w) REG_STATUS), info), emit (Read8 REG_STATUS) w)
        \<and> wait_busy_body ops ACTUATOR_STATUS_BUSY w
          = (ACTUATOR_STATUS_BUSY, msleep 10 (emit (Read8 REG_STATUS) w))
        \<and> wait_busy_loop ops ACTUATOR_STATUS_BUSY count w
          = (if count + 1 < 15
             then wait_busy_loop ops ACTUATOR_STATUS_BUSY (count + 1)
                    (msleep 10 (emit (Read8 REG_STATUS) w))
             else ((ACTUATOR_STATUS_BUSY, count + 1), msleep 10 (emit (Read8 REG_STATUS) w))))"
proof -
  have status: "sensor_fp5529_actuator_get_status ops i w
      = ((fst (addr8_read8 ops (trace w) REG_STATUS), i), emit (Read8 REG_STATUS) w)"
    if "client w \<noteq> None" and "fst (addr8_read8 ops (trace w) REG_STATUS) < 0" for i
    using that
    by (auto simp: sensor_fp5529_actuator_get_status_def ixc_read8_def split: prod.splits)
  have body: "wait_busy_body ops ACTUATOR_STATUS_BUSY w
      = (ACTUATOR_STATUS_BUSY, msleep 10 (emit (Read8 REG_STATUS) w))"
    if "client w \<noteq> None" and "fst (addr8_read8 ops (trace w) REG_STATUS) < 0"
    by (simp add: wait_busy_body_def status [OF that])
  have loop: "wait_busy_loop ops ACTUATOR_STATUS_BUSY count w
      = (if count + 1 < 15
         then wait_busy_loop ops ACTUATOR_STATUS_BUSY (count + 1)
                (msleep 10 (emit (Read8 REG_STATUS) w))
         else ((ACTUATOR_STATUS_BUSY, count + 1), msleep 10 (emit (Read8 REG_STATUS) w)))"
    if "client w \<noteq> None" and "fst (addr8_read8 ops (trace w) REG_STATUS) < 0"
    by (subst wait_busy_loop.simps) (simp add: body [OF that])
  show ?thesis
    using wait_busy_ret [of ops stack w] status [of info] body loop by blast
qed

theorem wait_busy_failed_read_witness:
  "client (fresh_actuator\<lparr>trace := [Msleep 5, Read8 REG_STATUS, Msleep 10]\<rparr>) \<noteq> None
   \<and> fst (addr8_read8 flaky_bus [Msleep 5, Read8 REG_STATUS, Msleep 10] REG_STATUS) < 0
   \<and> wait_busy_body flaky_bus ACTUATOR_STATUS_BUSY
         (fresh_actuator\<lparr>trace := [Msleep 5, Read8 REG_STATUS, Msleep 10]\<rparr>)
       = (ACTUATOR_STATUS_BUSY,
          fresh_actuator\<lparr>trace := [Msleep 5, Read8 REG_STATUS, Msleep 10, Read8 REG_STATUS, Msleep 10]\<rparr>)"
proof -
  let ?w = "fresh_actuator\<lparr>trace := [Msleep 5, Read8 REG_STATUS, Msleep 10]\<rparr>"
  have c: "client ?w \<noteq> None"
    by (simp add: fresh_actuator_def)
  have f: "fst (addr8_read8 flaky_bus (trace ?w) REG_STATUS) < 0"
    by (simp add: flaky_bus_def)
  from wait_busy_failed_read [of flaky_bus "\<lambda>h. ACTUATOR_STATUS_NO_BUSY" ?w ACTUATOR_STATUS_BUSY 1] c f
  have "wait_busy_body flaky_bus ACTUATOR_STATUS_BUSY ?w
      = (ACTUATOR_STATUS_BUSY, msleep 10 (emit (Read8 REG_STATUS) ?w))"
    by blast
  with c f show ?thesis
    by (simp add: msleep_def emit_def)
qed

text \<open>
  The spec's wording for C7 has every failed status read treated as not busy. On a bus
  whose first status read shows busy and whose later status reads all fail, the loop
  keeps sleeping and polling to the bound: 15 reads, each followed by the 10 ms sleep.
\<close>

theorem wait_busy_failed_read_counterexample:
  "wait_busy_loop flaky_bus ACTUATOR_STATUS_NO_BUSY 0 (msleep 5 fresh_actuator)
     = ((ACTUATOR_STATUS_BUSY, 15),
        fresh_actuator\<lparr>trace := Msleep 5 # concat (replicate 15 [Read8 REG_STATUS, Msleep 10])\<rparr>)
   \<and> fst (addr8_read8 flaky_bus [Msleep 5, Read8 REG_STATUS, Msleep 10] REG_STATUS) = - 5"
  by code_simp

section \<open>Initialisation\<close>

lemma acc_mode_byte:
  "(ucast (push_bit 5 (cm AND 0xff) OR (ps AND 0xff)) :: u8) = ucast (push_bit 5 cm OR ps)"
  for cm ps :: u32
proof -
  have ff: "(0xff :: u32) = mask 8"
    by (simp add: mask_eq_exp_minus_1)
  show ?thesis
    unfolding ff by (rule bit_word_eqI) (auto simp: bit_simps)
qed

lemma init_default_unfold:
  "sensor_fp5529_init ops None w = init_writes ops 0x01 0x36 w"
  by (simp add: sensor_fp5529_init_def init_writes_def ixc_write8_def usleep_range_def
      emit_def PWR_ON_DELAY_def Let_def)

lemma init_calibrated_unfold:
  "sensor_fp5529_init ops (Some cal) w
     = init_writes ops (ucast (push_bit 5 (control_mode cal) OR prescale cal)) (ucast (acctime cal)) w"
  by (simp only: sensor_fp5529_init_def acc_mode_byte)
    (simp add: init_writes_def ixc_write8_def usleep_range_def emit_def PWR_ON_DELAY_def Let_def)

lemma init_writes_ok:
  assumes "init_writes ops m t w = (ret, w')" and "0 \<le> ret"
  shows "trace w' = trace w @ [Write8 REG_CONTROL 0x01, Write8 REG_CONTROL 0x00,
      Usleep_range 5000 5000, Write8 REG_CONTROL 0x02, Write8 REG_ACC_MODE m, Write8 REG_ACC_TIME t]"
  using assms by (auto simp: init_writes_def Let_def split: if_splits)

lemma init_writes_frame:
  assumes "init_writes ops m t w = (ret, w')"
  shows "position w' = position w \<and> client w' = client w"
  using assms by (auto simp: init_writes_def Let_def split: if_splits)

lemma init_writes_abort:
  fixes m t
  defines "seq \<equiv> [Write8 REG_CONTROL 0x01, Write8 REG_CONTROL 0x00,
      Usleep_range 5000 5000, Write8 REG_CONTROL 0x02, Write8 REG_ACC_MODE m, Write8 REG_ACC_TIME t]"
  assumes "init_writes ops m t w = (ret, w')" and "ret < 0"
  shows "\<exists>n a v. n < length seq \<and> seq ! n = Write8 a v
      \<and> trace w' = trace w @ take (Suc n) seq
      \<and> addr8_write8 ops (trace w @ take n seq) a v = ret"
proof -
  let ?P = "\<lambda>n a v. n < length seq \<and> seq ! n = Write8 a v
      \<and> trace w' = trace w @ take (Suc n) seq
      \<and> addr8_write8 ops (trace w @ take n seq) a v = ret"
  from assms(2,3) consider
      "?P 0 REG_CONTROL 0x01" | "?P 1 REG_CONTROL 0x00" | "?P 3 REG_CONTROL 0x02"
    | "?P 4 REG_ACC_MODE m" | "?P 5 REG_ACC_TIME t"
    unfolding seq_def
    by (auto simp: init_writes_def Let_def split: if_splits)
  then show ?thesis by cases blast+
qed

lemma small_index: "n < 5 \<Longrightarrow> n = 0 \<or> n = 1 \<or> n = 2 \<or> n = 3 \<or> n = (4::nat)"
  by arith

lemma init_writes_earlier:
  fixes m t
  defines "seq \<equiv> [Write8 REG_CONTROL 0x01, Write8 REG_CONTROL 0x00,
      Usleep_range 5000 5000, Write8 REG_CONTROL 0x02, Write8 REG_ACC_MODE m, Write8 REG_ACC_TIME t]"
  assumes run: "init_writes ops m t w = (ret, w')"
    and n: "Suc n < length (trace w') - length (trace w)"
    and wr: "seq ! n = Write8 a v"
  shows "0 \<le> addr8_write8 ops (trace w @ take n seq) a v"
proof -
  from run have "length (trace w') - length (trace w) \<le> 6"
    by (auto simp: init_writes_def Let_def split: if_splits)
  with n have "n < 5" by simp
  then have "n = 0 \<or> n = 1 \<or> n = 2 \<or> n = 3 \<or> n = 4"
    by (rule small_index)
  then show ?thesis
    using run n wr unfolding seq_def
    by (elim disjE) (auto simp: init_writes_def Let_def split: if_splits)
qed

text \<open>
  C4. Without calibration data \<^verbatim>\<open>sensor_fp5529_init\<close> issues power-down set,
  power-down clear, the 5 ms settle delay, ring-mode enable, acceleration mode \<open>0x01\<close>
  and acceleration time \<open>0x36\<close>, in that order and nothing else. A write that fails
  ends the sequence on the spot: on an error return the transcript stops right after a
  write of the sequence, the returned code is what that write returned, and every write
  issued before the last event of the run had succeeded. The stored position is untouched.
\<close>

theorem init_default_sequence_order:
  assumes "sensor_fp5529_init ops None w = (ret, w')"
  shows "(0 \<le> ret \<longrightarrow> trace w' = trace w @ default_init_sequence)
    \<and> (ret < 0 \<longrightarrow>
         (\<exists>n a v. n < length default_init_sequence \<and> default_init_sequence ! n = Write8 a v
            \<and> trace w' = trace w @ take (Suc n) default_init_sequence
            \<and> addr8_write8 ops (trace w @ take n default_init_sequence) a v = ret))
    \<and> (\<forall>n a v. Suc n < length (trace w') - length (trace w)
            \<and> default_init_sequence ! n = Write8 a v
          \<longrightarrow> 0 \<le> addr8_write8 ops (trace w @ take n default_init_sequence) a v)
    \<and> position w' = position w"
proof -
  from assms have run: "init_writes ops 0x01 0x36 w = (ret, w')"
    by (simp add: init_default_unfold)
  have ok: "trace w' = trace w @ default_init_sequence" if "0 \<le> ret"
    using init_writes_ok [OF run that] by (simp add: default_init_sequence_def)
  have abort: "\<exists>n a v. n < length default_init_sequence \<and> default_init_sequence ! n = Write8 a v
      \<and> trace w' = trace w @ take (Suc n) default_init_sequence
      \<and> addr8_write8 ops (trace w @ take n default_init_sequence) a v = ret" if "ret < 0"
    using init_writes_abort [OF run that] unfolding default_init_sequence_def .
  have earlier: "0 \<le> addr8_write8 ops (trace w @ take n default_init_sequence) a v"
    if "Suc n < length (trace w') - length (trace w)" and "default_init_sequence ! n = Write8 a v"
    for n a v
    using init_writes_earlier [OF run that(1)] that(2) unfolding default_init_sequence_def .
  from ok abort earlier init_writes_frame [OF run] show ?thesis by blast
qed

theorem init_default_sequence_order_witness:
  "sensor_fp5529_init quiet_bus None fresh_actuator
     = (0, fresh_actuator\<lparr>trace := [Write8 REG_CONTROL 0x01, Write8 REG_CONTROL 0x00,
          Usleep_range 5000 5000, Write8 REG_CONTROL 0x02, Write8 REG_ACC_MODE 0x01,
          Write8 REG_ACC_TIME 0x36]\<rparr>)
   \<and> sensor_fp5529_init ring_fail_bus None fresh_actuator
     = (- 5, fresh_actuator\<lparr>trace := [Write8 REG_CONTROL 0x01, Write8 REG_CONTROL 0x00,
          Usleep_range 5000 5000, Write8 REG_CONTROL 0x02]\<rparr>)"
proof -
  obtain r1 w1 where a: "sensor_fp5529_init quiet_bus None fresh_actuator = (r1, w1)"
    by (cases "sensor_fp5529_init quiet_bus None fresh_actuator")
  obtain r2 w2 where b: "sensor_fp5529_init ring_fail_bus None fresh_actuator = (r2, w2)"
    by (cases "sensor_fp5529_init ring_fail_bus None fresh_actuator")
  have r1: "r1 = 0" and w1: "client w1 = client fresh_actuator"
    using a by (auto simp: init_default_unfold init_writes_def quiet_bus_def Let_def)
  have r2: "r2 = - 5" and w2: "client w2 = client fresh_actuator"
    and l2: "trace w2 = take 4 default_init_sequence"
    using b
    by (auto simp: init_default_unfold init_writes_def ring_fail_bus_def Let_def
        fresh_actuator_def default_init_sequence_def)
  from init_default_sequence_order [OF a] r1
  have t1: "trace w1 = default_init_sequence" and p1: "position w1 = position fresh_actuator"
    by (simp_all add: fresh_actuator_def)
  from init_default_sequence_order [OF b]
  have p2: "position w2 = position fresh_actuator"
    by simp
  have "w1 = fresh_actuator\<lparr>trace := default_init_sequence\<rparr>"
    using t1 p1 w1 by (cases w1) (simp add: fresh_actuator_def)
  moreover have "w2 = fresh_actuator\<lparr>trace := take 4 default_init_sequence\<rparr>"
    using l2 p2 w2 by (cases w2) (simp add: fresh_actuator_def)
  ultimately show ?thesis
    using a b r1 r2 by (simp add: default_init_sequence_def)
qed

text \<open>
  C5. With calibration data present \<^verbatim>\<open>sensor_fp5529_init\<close> makes the same first
  three writes as the default path and then programs the acceleration-mode register with
  the low byte of \<open>(control_mode << 5) | prescale\<close> and the acceleration-time register
  with the low byte of \<open>acc_time\<close>. The statement gives the whole run as a function of
  what the bus answers: each write is issued exactly when the writes before it succeeded,
  a failing write ends the run with its code, and nothing but the transcript changes.
  For control mode 2, prescale 3 and acceleration time \<open>0x10\<close> the two bytes are
  \<open>0x43\<close> and \<open>0x10\<close>.
\<close>

theorem init_calibrated_registers:
  "sensor_fp5529_init ops (Some cal) w =
    (let m = (ucast (push_bit 5 (control_mode cal) OR prescale cal) :: u8);
         t = (ucast (acctime cal) :: u8);
         h0 = trace w;
         r1 = addr8_write8 ops h0 REG_CONTROL 0x01;
         h1 = h0 @ [Write8 REG_CONTROL 0x01];
         r2 = addr8_write8 ops h1 REG_CONTROL 0x00;
         h2 = h1 @ [Write8 REG_CONTROL 0x00];
         h3 = h2 @ [Usleep_range 5000 5000];
         r3 = addr8_write8 ops h3 REG_CONTROL 0x02;
         h4 = h3 @ [Write8 REG_CONTROL 0x02];
         r4 = addr8_write8 ops h4 REG_ACC_MODE m;
         h5 = h4 @ [Write8 REG_ACC_MODE m];
         r5 = addr8_write8 ops h5 REG_ACC_TIME t;
         h6 = h5 @ [Write8 REG_ACC_TIME t]
     in if r1 < 0 then (r1, w\<lparr>trace := h1\<rparr>)
        else if r2 < 0 then (r2, w\<lparr>trace := h2\<rparr>)
        else if r3 < 0 then (r3, w\<lparr>trace := h4\<rparr>)
        else if r4 < 0 then (r4, w\<lparr>trace := h5\<rparr>)
        else (r5, w\<lparr>trace := h6\<rparr>))
   \<and> sensor_fp5529_init ops (Some \<lparr>control_mode = 0x2, prescale = 0x3, acctime = 0x10\<rparr>) w =
    (let h0 = trace w;
         r1 = addr8_write8 ops h0 REG_CONTROL 0x01;
         h1 = h0 @ [Write8 REG_CONTROL 0x01];
         r2 = addr8_write8 ops h1 REG_CONTROL 0x00;
         h2 = h1 @ [Write8 REG_CONTROL 0x00];
         h3 = h2 @ [Usleep_range 5000 5000];
         r3 = addr8_write8 ops h3 REG_CONTROL 0x02;
         h4 = h3 @ [Write8 REG_CONTROL 0x02];
         r4 = addr8_write8 ops h4 REG_ACC_MODE 0x43;
         h5 = h4 @ [Write8 REG_ACC_MODE 0x43];
         r5 = addr8_write8 ops h5 REG_ACC_TIME 0x10;
         h6 = h5 @ [Write8 REG_ACC_TIME 0x10]
     in if r1 < 0 then (r1, w\<lparr>trace := h1\<rparr>)
        else if r2 < 0 then (r2, w\<lparr>trace := h2\<rparr>)
        else if r3 < 0 then (r3, w\<lparr>trace := h4\<rparr>)
        else if r4 < 0 then (r4, w\<lparr>trace := h5\<rparr>)
        else (r5, w\<lparr>trace := h6\<rparr>))"
proof -
  have general: "sensor_fp5529_init ops (Some c) w
      = init_writes ops (ucast (push_bit 5 (control_mode c) OR prescale c)) (ucast (acctime c)) w"
    for c
    by (rule init_calibrated_unfold)
  have bytes: "(ucast (push_bit 5 (2 :: u32) OR 3) :: u8) = 0x43"
      "(ucast (0x10 :: u32) :: u8) = 0x10"
    by simp_all
  have first: "sensor_fp5529_init ops (Some cal) w
      = init_writes ops (ucast (push_bit 5 (control_mode cal) OR prescale cal))
          (ucast (acctime cal)) w"
    by (rule general)
  have second: "sensor_fp5529_init ops (Some \<lparr>control_mode = 0x2, prescale = 0x3, acctime = 0x10\<rparr>) w
      = init_writes ops 0x43 0x10 w"
    using general [of "\<lparr>control_mode = 0x2, prescale = 0x3, acctime = 0x10\<rparr>"] bytes by simp
  show ?thesis
    unfolding first second by (simp add: init_writes_def Let_def)
qed

theorem init_calibrated_registers_witness:
  "sensor_fp5529_init quiet_bus (Some \<lparr>control_mode = 0x2, prescale = 0x3, acctime = 0x10\<rparr>)
      fresh_actuator
     = (0, fresh_actuator\<lparr>trace := [Write8 REG_CONTROL 0x01, Write8 REG_CONTROL 0x00,
          Usleep_range 5000 5000, Write8 REG_CONTROL 0x02, Write8 REG_ACC_MODE 0x43,
          Write8 REG_ACC_TIME 0x10]\<rparr>)
   \<and> sensor_fp5529_init quiet_bus (Some \<lparr>control_mode = 0x0F, prescale = 0x1, acctime = 0x136\<rparr>)
      fresh_actuator
     = (0, fresh_actuator\<lparr>trace := [Write8 REG_CONTROL 0x01, Write8 REG_CONTROL 0x00,
          Usleep_range 5000 5000, Write8 REG_CONTROL 0x02, Write8 REG_ACC_MODE 0xE1,
          Write8 REG_ACC_TIME 0x36]\<rparr>)
   \<and> sensor_fp5529_init ring_fail_bus (Some \<lparr>control_mode = 0x2, prescale = 0x3, acctime = 0x10\<rparr>)
      fresh_actuator
     = (- 5, fresh_actuator\<lparr>trace := [Write8 REG_CONTROL 0x01, Write8 REG_CONTROL 0x00,
          Usleep_range 5000 5000, Write8 REG_CONTROL 0x02]\<rparr>)"
proof -
  have t: "trace fresh_actuator = []"
    by (simp add: fresh_actuator_def)
  have q: "addr8_write8 quiet_bus h a v = 0" for h a v
    by (simp add: quiet_bus_def)
  have f: "addr8_write8 ring_fail_bus h a v = (if v = 2 then - 5 else 0)" for h a v
    by (simp add: ring_fail_bus_def)
  show ?thesis
    using init_calibrated_registers [of quiet_bus "\<lparr>control_mode = 0x2, prescale = 0x3, acctime = 0x10\<rparr>"
        fresh_actuator]
      init_calibrated_registers [of quiet_bus "\<lparr>control_mode = 0x0F, prescale = 0x1, acctime = 0x136\<rparr>"
        fresh_actuator]
      init_calibrated_registers [of ring_fail_bus "\<lparr>control_mode = 0x2, prescale = 0x3, acctime = 0x10\<rparr>"
        fresh_actuator]
    by (simp add: t q f Let_def)
qed

section \<open>The initial position sequence\<close>

lemma valid_check_loop_invalid:
  "0 \<le> i \<Longrightarrow> i \<le> j \<Longrightarrow> j < init_step s \<Longrightarrow>
   j < int (length (init_positions s)) \<Longrightarrow> j < int (length (init_delays s)) \<Longrightarrow>
   init_positions s ! nat j < 0 \<or> init_delays s ! nat j < 0 \<Longrightarrow>
   valid_check_loop s i = Some 0"
proof (induction s i rule: valid_check_loop.induct)
  case (1 s i)
  from "1.prems" have lt: "i < init_step s" by simp
  from "1.prems" have p: "array_read (init_positions s) i = Some (init_positions s ! nat i)"
    and d: "array_read (init_delays s) i = Some (init_delays s ! nat i)"
    by (simp_all add: array_read_def)
  show ?case
  proof (cases "init_positions s ! nat i < 0 \<or> init_delays s ! nat i < 0")
    case True
    then show ?thesis
      by (subst valid_check_loop.simps) (auto simp: lt p d)
  next
    case False
    with "1.prems" have "i \<noteq> j" by auto
    with "1.prems" have le: "i + 1 \<le> j" and nn: "0 \<le> i + 1" by simp_all
    have "valid_check_loop s (i + 1) = Some 0"
      using "1.IH" [OF lt p _ d _ nn le "1.prems"(3-6)] False by simp
    with False show ?thesis
      by (subst valid_check_loop.simps) (simp add: lt p d)
  qed
qed

lemma valid_check_fallback:
  assumes "init_step s \<le> 0
    \<or> (\<exists>j. 0 \<le> j \<and> j < init_step s
          \<and> j < int (length (init_positions s)) \<and> j < int (length (init_delays s))
          \<and> (init_positions s ! nat j < 0 \<or> init_delays s ! nat j < 0))"
  shows "sensor_fp5529_valid_check s = Some 0"
  using assms
  by (auto simp: sensor_fp5529_valid_check_def intro: valid_check_loop_invalid [where i = 0])

lemma write_position_in_range:
  assumes "adapter cl" and "val \<le> FP5529_POS_MAX_SIZE"
  shows "sensor_fp5529_write_position ops cl val w
    = (addr_data_write16 ops (trace w) REG_VCM_MSB (pos_high val) (pos_low val),
       w\<lparr>trace := trace w @ [Write16 REG_VCM_MSB (pos_high val) (pos_low val)]\<rparr>)"
  using assms
  by (simp add: sensor_fp5529_write_position_def ixc_write16_def emit_def pos_high_def
      pos_low_def Let_def not_less [symmetric])

lemma write_first_position:
  "adapter cl \<Longrightarrow> sensor_fp5529_write_position ops cl 100 w
    = (addr_data_write16 ops (trace w) REG_VCM_MSB 0 100,
       w\<lparr>trace := trace w @ [Write16 REG_VCM_MSB 0 100]\<rparr>)"
  by (subst write_position_in_range)
    (simp_all add: FP5529_POS_MAX_SIZE_def pos_high_def pos_low_def)

lemma write_second_position:
  "adapter cl \<Longrightarrow> sensor_fp5529_write_position ops cl 180 w
    = (addr_data_write16 ops (trace w) REG_VCM_MSB 0 180,
       w\<lparr>trace := trace w @ [Write16 REG_VCM_MSB 0 180]\<rparr>)"
  by (subst write_position_in_range)
    (simp_all add: FP5529_POS_MAX_SIZE_def pos_high_def pos_low_def)

text \<open>
  C9. When the step count is zero or negative (no list), or one of the listed positions
  or delays is negative, \<^verbatim>\<open>sensor_fp5529_init_position\<close> runs the fixed default
  sequence: write position 100, sleep 20 ms, write position 180, sleep 10 ms, and then
  stores 180 as the position. As everywhere in the driver, a write that fails ends the
  sequence with its error code, and the stored position then stays as it was. (The
  invalid entry is taken to lie inside both arrays, and the client to have its adapter.)
\<close>

theorem init_position_fallback:
  assumes "init_step s \<le> 0
    \<or> (\<exists>j. 0 \<le> j \<and> j < init_step s
          \<and> j < int (length (init_positions s)) \<and> j < int (length (init_delays s))
          \<and> (init_positions s ! nat j < 0 \<or> init_delays s ! nat j < 0))"
    and "adapter cl"
  shows "sensor_fp5529_init_position ops cl s w =
    (let h0 = trace w;
         r1 = addr_data_write16 ops h0 REG_VCM_MSB 0 100;
         h1 = h0 @ [Write16 REG_VCM_MSB 0 100];
         h2 = h1 @ [Msleep 20];
         r2 = addr_data_write16 ops h2 REG_VCM_MSB 0 180;
         h3 = h2 @ [Write16 REG_VCM_MSB 0 180];
         h4 = h3 @ [Msleep 10]
     in if r1 < 0 then Some (r1, w\<lparr>trace := h1\<rparr>)
        else if r2 < 0 then Some (r2, w\<lparr>trace := h3\<rparr>)
        else Some (r2, w\<lparr>trace := h4, position := 180\<rparr>))"
proof -
  have v: "sensor_fp5529_valid_check s = Some 0"
    using assms(1) by (rule valid_check_fallback)
  show ?thesis
    by (simp add: sensor_fp5529_init_position_def v write_first_position [OF assms(2)]
        write_second_position [OF assms(2)] msleep_def emit_def Let_def
        DEF_FP5529_FIRST_DELAY_def DEF_FP5529_SECOND_DELAY_def
        DEF_FP5529_FIRST_POSITION_def DEF_FP5529_SECOND_POSITION_def)
qed


theorem init_position_fallback_witness:
  "sensor_fp5529_init_position quiet_bus \<lparr>adapter = True\<rparr> bad_delay_list fresh_actuator
     = Some (0, fresh_actuator\<lparr>trace := [Write16 REG_VCM_MSB 0 100, Msleep 20,
          Write16 REG_VCM_MSB 0 180, Msleep 10], position := 180\<rparr>)
   \<and> sensor_fp5529_init_position quiet_bus \<lparr>adapter = True\<rparr> no_override fresh_actuator
     = Some (0, fresh_actuator\<lparr>trace := [Write16 REG_VCM_MSB 0 100, Msleep 20,
          Write16 REG_VCM_MSB 0 180, Msleep 10], position := 180\<rparr>)
   \<and> sensor_fp5529_init_position dead_bus \<lparr>adapter = True\<rparr> no_override fresh_actuator
     = Some (- 5, fresh_actuator\<lparr>trace := [Write16 REG_VCM_MSB 0 100]\<rparr>)"
proof -
  have bad: "init_step bad_delay_list \<le> 0
    \<or> (\<exists>j. 0 \<le> j \<and> j < init_step bad_delay_list
          \<and> j < int (length (init_positions bad_delay_list))
          \<and> j < int (length (init_delays bad_delay_list))
          \<and> (init_positions bad_delay_list ! nat j < 0 \<or> init_delays bad_delay_list ! nat j < 0))"
    by (rule disjI2, rule exI [of _ 1]) (simp add: bad_delay_list_def)
  have none: "init_step no_override \<le> 0
    \<or> (\<exists>j. 0 \<le> j \<and> j < init_step no_override
          \<and> j < int (length (init_positions no_override))
          \<and> j < int (length (init_delays no_override))
          \<and> (init_positions no_override ! nat j < 0 \<or> init_delays no_override ! nat j < 0))"
    by (simp add: no_override_def)
  have a: "adapter \<lparr>adapter = True\<rparr>" by simp
  have t: "trace fresh_actuator = []" by (simp add: fresh_actuator_def)
  show ?thesis
    using init_position_fallback [OF bad a, of quiet_bus fresh_actuator]
      init_position_fallback [OF none a, of quiet_bus fresh_actuator]
      init_position_fallback [OF none a, of dead_bus fresh_actuator]
    by (simp add: t quiet_bus_def dead_bus_def)
qed

text \<open>
  C2, at a concrete list. With two valid steps, (100, 20 ms) and (180, 10 ms), in arrays
  of five entries, the driver writes 100, sleeps 20 ms, writes 180, sleeps 10 ms, and then
  stores \<^verbatim>\<open>init_positions[2]\<close>, the entry after the last one written: the stored
  position is 0, not 180. With all five entries in use the entry read lies past the end
  of the array.
\<close>

theorem init_position_list_off_by_one:
  "sensor_fp5529_init_position quiet_bus \<lparr>adapter = True\<rparr> two_step_list fresh_actuator
     = Some (0, fresh_actuator\<lparr>trace := [Write16 REG_VCM_MSB 0 100, Msleep 20,
          Write16 REG_VCM_MSB 0 180, Msleep 10], position := 0\<rparr>)
   \<and> init_positions two_step_list ! 2 = 0
   \<and> sensor_fp5529_init_position quiet_bus \<lparr>adapter = True\<rparr> five_step_list fresh_actuator
     = None"
  by code_simp

section \<open>Soft landing\<close>

lemma body_frame:
  "position (snd (wait_busy_body ops info w)) = position w
   \<and> client (snd (wait_busy_body ops info w)) = client w"
  by (auto simp: wait_busy_body_def sensor_fp5529_actuator_get_status_def ixc_read8_def
      msleep_def emit_def Let_def split: option.splits prod.splits)

lemma loop_frame:
  "position (snd (wait_busy_loop ops info count w)) = position w
   \<and> client (snd (wait_busy_loop ops info count w)) = client w"
proof (induction ops info count w rule: wait_busy_loop.induct)
  case (1 ops info count w)
  show ?case
  proof (cases "fst (wait_busy_body ops info w) = ACTUATOR_STATUS_BUSY \<and> count + 1 < 15")
    case True
    with "1.IH" [OF refl refl] body_frame [of ops info w] show ?thesis
      by (subst (1 2) wait_busy_loop.simps) (simp add: Let_def)
  next
    case False
    with body_frame [of ops info w] show ?thesis
      by (subst (1 2) wait_busy_loop.simps) (auto simp: Let_def)
  qed
qed

lemma wait_busy_frame:
  "position (snd (sensor_fp5529_actuator_wait_busy ops stack w)) = position w"
  "client (snd (sensor_fp5529_actuator_wait_busy ops stack w)) = client w"
  by (simp_all add: sensor_fp5529_actuator_wait_busy_def Let_def loop_frame msleep_def
      position_emit client_emit)

lemma soft_landing_sequence_frame:
  "position (snd (soft_landing_sequence ops stack w)) = position w"
  by (simp add: soft_landing_sequence_def Let_def ixc_write8_def ixc_read8_def
      wait_busy_frame position_emit split: option.splits prod.splits)

lemma soft_landing_verify_outcome:
  assumes "addr8_read8 ops (trace w1) REG_VCM_MSB = (r1, high)" and "0 \<le> r1"
    and "addr8_read8 ops (trace w1 @ [Read8 REG_VCM_MSB]) REG_VCM_LSB = (r2, low)" and "0 \<le> r2"
  shows "soft_landing_verify ops hw w1 =
    (let position_final = (push_bit 8 (ucast (high AND 0x03) :: u16) OR ucast low);
         w2 = w1\<lparr>trace := trace w1 @ [Read8 REG_VCM_MSB, Read8 REG_VCM_LSB]\<rparr>
     in if position_final = 0 then (r2, w2)
        else (hw, w2\<lparr>position := ucast position_final\<rparr>))"
  using assms
  by (simp add: soft_landing_verify_def ixc_read8_def emit_def Let_def word_greater_zero_iff)

text \<open>
  C1. Once the landing sequence has run through, the two position registers are read
  back. With \<open>high\<close> and \<open>low\<close> the bytes read, the final position is
  \<open>((high & 0x03) << 8) | low\<close>. If it is zero, the function returns the (non-negative)
  code of the last read, the success return, and the stored position is what it was on
  entry; if it is not zero, the function returns \<^verbatim>\<open>HW_SOFTLANDING_FAIL\<close> and the
  stored position becomes the position read.
\<close>

theorem soft_landing_outcome:
  assumes "soft_landing_sequence ops stack w = (r, w1)" and "0 \<le> r"
    and "addr8_read8 ops (trace w1) REG_VCM_MSB = (r1, high)" and "0 \<le> r1"
    and "addr8_read8 ops (trace w1 @ [Read8 REG_VCM_MSB]) REG_VCM_LSB = (r2, low)" and "0 \<le> r2"
  shows "sensor_fp5529_actuator_soft_landing ops stack HW_SOFTLANDING_FAIL w =
    (let position_final = (push_bit 8 (ucast (high AND 0x03) :: u16) OR ucast low);
         w2 = w1\<lparr>trace := trace w1 @ [Read8 REG_VCM_MSB, Read8 REG_VCM_LSB]\<rparr>
     in if position_final = 0 then (r2, w2)
        else (HW_SOFTLANDING_FAIL, w2\<lparr>position := ucast position_final\<rparr>))
    \<and> position w1 = position w"
proof -
  have "position w1 = position w"
    using soft_landing_sequence_frame [of ops stack w] assms(1) by simp
  moreover have "sensor_fp5529_actuator_soft_landing ops stack HW_SOFTLANDING_FAIL w
      = soft_landing_verify ops HW_SOFTLANDING_FAIL w1"
    using assms(1,2) by (simp add: sensor_fp5529_actuator_soft_landing_def)
  ultimately show ?thesis
    using soft_landing_verify_outcome [OF assms(3-6), of HW_SOFTLANDING_FAIL] by simp
qed

theorem soft_landing_outcome_witness:
  "sensor_fp5529_actuator_soft_landing quiet_bus (\<lambda>h. ACTUATOR_STATUS_NO_BUSY) (- 1000) fresh_actuator
     = (0, fresh_actuator\<lparr>trace :=
          [Msleep 5, Read8 REG_STATUS, Read8 REG_VCM_MSB, Read8 REG_VCM_LSB, Write8 REG_PRESET 0,
           Msleep 5, Read8 REG_STATUS, Write8 REG_CONTROL 0x02,
           Msleep 5, Read8 REG_STATUS, Write8 REG_ACC_MODE 0xA1,
           Msleep 5, Read8 REG_STATUS, Write8 REG_LAD_EN 0x01,
           Msleep 5, Read8 REG_STATUS, Read8 REG_VCM_MSB, Read8 REG_VCM_LSB]\<rparr>)
   \<and> sensor_fp5529_actuator_soft_landing stuck_bus (\<lambda>h. ACTUATOR_STATUS_NO_BUSY) (- 1000) fresh_actuator
     = (- 1000, fresh_actuator\<lparr>trace :=
          [Msleep 5, Read8 REG_STATUS, Read8 REG_VCM_MSB, Read8 REG_VCM_LSB, Write8 REG_PRESET 0xFF,
           Msleep 5, Read8 REG_STATUS, Write8 REG_CONTROL 0x02,
           Msleep 5, Read8 REG_STATUS, Write8 REG_ACC_MODE 0xA1,
           Msleep 5, Read8 REG_STATUS, Write8 REG_LAD_EN 0x01,
           Msleep 5, Read8 REG_STATUS, Read8 REG_VCM_MSB, Read8 REG_VCM_LSB],
          position := 0x210\<rparr>)"
proof -
  let ?stack = "\<lambda>h :: event list. ACTUATOR_STATUS_NO_BUSY"
  let ?q = "[Msleep 5, Read8 REG_STATUS, Read8 REG_VCM_MSB, Read8 REG_VCM_LSB, Write8 REG_PRESET 0,
           Msleep 5, Read8 REG_STATUS, Write8 REG_CONTROL 0x02,
           Msleep 5, Read8 REG_STATUS, Write8 REG_ACC_MODE 0xA1,
           Msleep 5, Read8 REG_STATUS, Write8 REG_LAD_EN 0x01,
           Msleep 5, Read8 REG_STATUS]"
  let ?s = "[Msleep 5, Read8 REG_STATUS, Read8 REG_VCM_MSB, Read8 REG_VCM_LSB, Write8 REG_PRESET 0xFF,
           Msleep 5, Read8 REG_STATUS, Write8 REG_CONTROL 0x02,
           Msleep 5, Read8 REG_STATUS, Write8 REG_ACC_MODE 0xA1,
           Msleep 5, Read8 REG_STATUS, Write8 REG_LAD_EN 0x01,
           Msleep 5, Read8 REG_STATUS]"
  have q: "soft_landing_sequence quiet_bus ?stack fresh_actuator = (0, fresh_actuator\<lparr>trace := ?q\<rparr>)"
    by (simp add: soft_landing_sequence_def wait_busy_idle ixc_read8_def ixc_write8_def emit_def
        quiet_bus_def fresh_actuator_def)
  have s: "soft_landing_sequence stuck_bus ?stack fresh_actuator = (0, fresh_actuator\<lparr>trace := ?s\<rparr>)"
    by (simp add: soft_landing_sequence_def wait_busy_idle ixc_read8_def ixc_write8_def emit_def
        stuck_bus_def fresh_actuator_def REG_STATUS_def REG_VCM_MSB_def REG_VCM_LSB_def)
  have z: "(0::int) \<le> 0" by simp
  have q1: "addr8_read8 quiet_bus (trace (fresh_actuator\<lparr>trace := ?q\<rparr>)) REG_VCM_MSB = (0, 0)"
    and q2: "addr8_read8 quiet_bus (trace (fresh_actuator\<lparr>trace := ?q\<rparr>) @ [Read8 REG_VCM_MSB])
        REG_VCM_LSB = (0, 0)"
    by (simp_all add: quiet_bus_def)
  have s1: "addr8_read8 stuck_bus (trace (fresh_actuator\<lparr>trace := ?s\<rparr>)) REG_VCM_MSB = (0, 0xFE)"
    and s2: "addr8_read8 stuck_bus (trace (fresh_actuator\<lparr>trace := ?s\<rparr>) @ [Read8 REG_VCM_MSB])
        REG_VCM_LSB = (0, 0x10)"
    by (simp_all add: stuck_bus_def REG_VCM_MSB_def REG_VCM_LSB_def)
  show ?thesis
    using soft_landing_outcome [OF q z q1 z q2 z, of "- 1000"]
      soft_landing_outcome [OF s z s1 z s2 z, of "- 1000"]
    by simp
qed

end
